theory Spec2Isabelle
  imports Main "HOL-Library.Word"
begin

section \<open>The script-execution cache of script/scriptcache.h\<close>

text \<open>
  The class \<^verbatim>\<open>CScriptCache\<close> owns a salted SHA256 hasher and a cuckoo cache of
  256-bit entries. Its constructor seeds the hasher, \<^verbatim>\<open>ComputeEntry\<close> derives an
  entry from a hash and the verification flags, and \<^verbatim>\<open>Get\<close>, \<^verbatim>\<open>Add\<close> and
  \<^verbatim>\<open>setup_bytes\<close> forward to the cuckoo cache.
\<close>

subsection \<open>Bytes, blobs and object representations\<close>

type_synonym byte = "8 word"

text \<open>\<^verbatim>\<open>unsigned int\<close> (32 bits on every target of the code base) and \<^verbatim>\<open>size_t\<close>.\<close>

type_synonym unsigned_int = "32 word"
type_synonym uint32_t = "32 word"
type_synonym size_t = "64 word"

text \<open>
  \<^verbatim>\<open>uint256\<close> is an opaque blob of 32 bytes. A blob is named here by the 256-bit word
  whose byte \<open>i\<close> (bits \<open>8 i\<close> to \<open>8 i + 7\<close>) is the blob's byte \<open>i\<close>; different
  words name different blobs.
\<close>

type_synonym uint256 = "256 word"

text \<open>The first \<open>n\<close> bytes of a word, least significant byte first.\<close>

definition bytes_of :: "nat \<Rightarrow> 'a::len word \<Rightarrow> byte list" where
  "bytes_of n w = map (\<lambda>i. ucast (drop_bit (8 * i) w)) [0..<n]"

text \<open>\<^verbatim>\<open>x.begin()\<close> for a \<^verbatim>\<open>uint256 x\<close>: the start of its 32 bytes of data.\<close>

definition uint256_begin :: "uint256 \<Rightarrow> byte list" where
  "uint256_begin x = bytes_of 32 x"

text \<open>
  \<^verbatim>\<open>(unsigned char* )&flags\<close> and \<^verbatim>\<open>sizeof(flags)\<close>: the bytes of the object
  representation of an \<^verbatim>\<open>unsigned int\<close>, and their number. The source converts no byte
  order, so the four bytes come in the order of the host the code is built for: least
  significant byte first on a little-endian host (x86-64, AArch64, RISC-V), most
  significant byte first on a big-endian one (s390x, big-endian PowerPC). The host's
  byte order is a parameter of the embedding.
\<close>

datatype byte_order = LittleEndian | BigEndian

definition sizeof_flags :: nat where
  "sizeof_flags = 4"

definition object_repr :: "byte_order \<Rightarrow> unsigned_int \<Rightarrow> byte list" where
  "object_repr order flags =
     (case order of
        LittleEndian \<Rightarrow> bytes_of 4 flags
      | BigEndian \<Rightarrow> rev (bytes_of 4 flags))"

subsection \<open>The hasher\<close>

text \<open>
  Modelled from the spec: \<^verbatim>\<open>CSHA256\<close> (crypto/sha256.h) is not part of the file. The
  spec treats it as an opaque, copyable running state of a one-way hash: what it has
  absorbed is the sequence of bytes written so far, \<^verbatim>\<open>Write(data, len)\<close> absorbs the
  next \<open>len\<close> bytes at \<open>data\<close>, and \<^verbatim>\<open>Finalize\<close> yields the 32-byte digest of all the
  bytes written. The digest function itself is a parameter \<open>sha\<close> of the model.
\<close>

datatype CSHA256 = CSHA256 (written: "byte list")

text \<open>Modelled from the spec: a default-constructed \<^verbatim>\<open>CSHA256\<close> has absorbed nothing.\<close>

definition CSHA256_init :: CSHA256 where
  "CSHA256_init = CSHA256 []"

text \<open>
  Modelled from the spec: \<^verbatim>\<open>CSHA256::Write(data, len)\<close> absorbs the \<open>len\<close> bytes at
  \<open>data\<close> after those written before (and returns the hasher, so that calls chain).
\<close>

definition Write :: "CSHA256 \<Rightarrow> byte list \<Rightarrow> nat \<Rightarrow> CSHA256" where
  "Write h data len = CSHA256 (written h @ take len data)"

text \<open>
  Modelled from the spec: \<^verbatim>\<open>CSHA256::Finalize(out)\<close> stores at \<open>out\<close> the 32-byte digest
  \<open>sha\<close> of the bytes written.
\<close>

definition Finalize :: "(byte list \<Rightarrow> uint256) \<Rightarrow> CSHA256 \<Rightarrow> uint256" where
  "Finalize sha h = sha (written h)"

subsection \<open>The cuckoo cache\<close>

text \<open>
  Modelled from the spec: \<^verbatim>\<open>CuckooCache::cache\<close> (cuckoocache.h) is not part of the
  file; the spec gives the contract the facade requires of it. The store holds keys and
  no payload, and is empty until a key is inserted. \<^verbatim>\<open>insert(key)\<close> adds the key; if
  the store is at capacity it may evict some other entry, chosen by the store's own
  eviction policy; it never fails. \<^verbatim>\<open>contains(key, erase)\<close> is the membership test; if
  \<open>erase\<close> is set and the key is found, the entry is removed as part of the same call.
  \<^verbatim>\<open>setup_bytes(n)\<close> initializes the storage to fit within \<open>n\<close> bytes and returns a
  32-bit size.

  The spec leaves the eviction policy and the sizing open, so both are parameters: the
  policy \<open>evict\<close> may name a victim (or none) from the store and the key being
  inserted, and \<open>sizing n\<close> is the number of entries the storage holds for a budget of
  \<open>n\<close> bytes together with the size reported for it.
\<close>

record cache =
  table :: "uint256 list"
  capacity :: nat

type_synonym eviction = "cache \<Rightarrow> uint256 \<Rightarrow> uint256 option"
type_synonym sizing = "size_t \<Rightarrow> nat \<times> uint32_t"

text \<open>
  Modelled from the spec: a default-constructed \<^verbatim>\<open>CuckooCache::cache\<close>; entries are
  created by \<^verbatim>\<open>insert\<close> only, and storage is committed by \<^verbatim>\<open>setup_bytes\<close> only.
\<close>

definition cache_init :: cache where
  "cache_init = \<lparr>table = [], capacity = 0\<rparr>"

text \<open>
  Modelled from the spec: \<^verbatim>\<open>CuckooCache::cache::insert(e)\<close> adds the key; at capacity
  it may evict some other entry, chosen by the policy.
\<close>

definition insert_entry :: "eviction \<Rightarrow> cache \<Rightarrow> uint256 \<Rightarrow> cache" where
  "insert_entry evict s e =
     (if e \<in> set (table s) then s
      else if length (table s) < capacity s then s\<lparr>table := e # table s\<rparr>
      else (case evict s e of
              None \<Rightarrow> s\<lparr>table := e # table s\<rparr>
            | Some v \<Rightarrow> s\<lparr>table := e # removeAll v (table s)\<rparr>))"

text \<open>
  Modelled from the spec: \<^verbatim>\<open>CuckooCache::cache::contains(e, erase)\<close> tests membership
  and, if \<open>erase\<close> is set and the key is found, removes it as part of the same call.
\<close>

definition contains :: "cache \<Rightarrow> uint256 \<Rightarrow> bool \<Rightarrow> bool \<times> cache" where
  "contains s e erase =
     (if e \<in> set (table s)
      then (True, if erase then s\<lparr>table := removeAll e (table s)\<rparr> else s)
      else (False, s))"

text \<open>
  Modelled from the spec: \<^verbatim>\<open>CuckooCache::cache::setup_bytes(n)\<close> initializes the storage
  for a budget of \<open>n\<close> bytes and returns the size reported for it.
\<close>

definition cache_setup_bytes :: "sizing \<Rightarrow> cache \<Rightarrow> size_t \<Rightarrow> uint32_t \<times> cache" where
  "cache_setup_bytes sizing s n = (snd (sizing n), \<lparr>table = [], capacity = fst (sizing n)\<rparr>)"

subsection \<open>The class CScriptCache\<close>

record CScriptCache =
  m_salted_hasher :: CSHA256
  m_set_scripts :: cache

text \<open>
  The constructor. \<^verbatim>\<open>GetRandHash()\<close> (random.h) draws the nonce from the system's
  randomness; its result is the argument \<open>nonce\<close>. Both members start
  default-constructed, and the nonce is written twice.
\<close>

definition CScriptCache_ctor :: "uint256 \<Rightarrow> CScriptCache" where
  "CScriptCache_ctor nonce =
     (let hasher = CSHA256_init;
          hasher = Write hasher (uint256_begin nonce) 32;
          hasher = Write hasher (uint256_begin nonce) 32
      in \<lparr>m_salted_hasher = hasher, m_set_scripts = cache_init\<rparr>)"

text \<open>
  \<^verbatim>\<open>ComputeEntry\<close> is a \<^verbatim>\<open>const\<close> method. Its local \<^verbatim>\<open>hasher\<close> is a copy of the member;
  \<open>ComputeEntry_hasher\<close> is that local after the two writes, and \<open>ComputeEntry\<close>
  finalizes it into the local \<^verbatim>\<open>entry\<close>, which is returned.
\<close>

definition ComputeEntry_hasher ::
  "byte_order \<Rightarrow> CScriptCache \<Rightarrow> uint256 \<Rightarrow> unsigned_int \<Rightarrow> CSHA256" where
  "ComputeEntry_hasher order c hash flags =
     (let hasher = m_salted_hasher c
      in Write (Write hasher (uint256_begin hash) 32) (object_repr order flags) sizeof_flags)"

definition ComputeEntry ::
  "byte_order \<Rightarrow> (byte list \<Rightarrow> uint256) \<Rightarrow> CScriptCache \<Rightarrow> uint256 \<Rightarrow> unsigned_int
     \<Rightarrow> uint256" where
  "ComputeEntry order sha c hash flags =
     (let entry = Finalize sha (ComputeEntry_hasher order c hash flags) in entry)"

definition Get :: "CScriptCache \<Rightarrow> uint256 \<Rightarrow> bool \<Rightarrow> bool \<times> CScriptCache" where
  "Get c entry erase =
     (let (found, s) = contains (m_set_scripts c) entry erase
      in (found, c\<lparr>m_set_scripts := s\<rparr>))"

definition Add :: "eviction \<Rightarrow> CScriptCache \<Rightarrow> uint256 \<Rightarrow> CScriptCache" where
  "Add evict c entry = c\<lparr>m_set_scripts := insert_entry evict (m_set_scripts c) entry\<rparr>"

definition setup_bytes :: "sizing \<Rightarrow> CScriptCache \<Rightarrow> size_t \<Rightarrow> uint32_t \<times> CScriptCache" where
  "setup_bytes sizing c n =
     (let (r, s) = cache_setup_bytes sizing (m_set_scripts c) n
      in (r, c\<lparr>m_set_scripts := s\<rparr>))"

subsection \<open>Histories of calls\<close>

text \<open>
  A call of one of the four methods, what it returns, and the object after it. A
  reachable object is the constructed one after a list of calls.
\<close>

datatype invocation =
    ComputeEntry_call uint256 unsigned_int
  | Get_call uint256 bool
  | Add_call uint256
  | setup_bytes_call size_t

datatype returned = Entry uint256 | Found bool | Void | Size uint32_t

fun call ::
  "byte_order \<Rightarrow> (byte list \<Rightarrow> uint256) \<Rightarrow> eviction \<Rightarrow> sizing \<Rightarrow> CScriptCache \<Rightarrow> invocation
     \<Rightarrow> returned \<times> CScriptCache" where
  "call order sha evict sizing c (ComputeEntry_call hash flags) =
     (Entry (ComputeEntry order sha c hash flags), c)"
| "call order sha evict sizing c (Get_call entry erase) =
     (let (found, c') = Get c entry erase in (Found found, c'))"
| "call order sha evict sizing c (Add_call entry) = (Void, Add evict c entry)"
| "call order sha evict sizing c (setup_bytes_call n) =
     (let (r, c') = setup_bytes sizing c n in (Size r, c'))"

fun run ::
  "byte_order \<Rightarrow> (byte list \<Rightarrow> uint256) \<Rightarrow> eviction \<Rightarrow> sizing \<Rightarrow> CScriptCache \<Rightarrow> invocation list
     \<Rightarrow> CScriptCache" where
  "run order sha evict sizing c [] = c"
| "run order sha evict sizing c (m # ms) =
     run order sha evict sizing (snd (call order sha evict sizing c m)) ms"

text \<open>
  Whether, at the end of a history, the key \<open>k\<close> has been passed to \<^verbatim>\<open>Add\<close> with no
  erasing \<^verbatim>\<open>Get\<close> of \<open>k\<close> since; \<open>b\<close> is the answer before the history.
\<close>

fun added_not_erased :: "uint256 \<Rightarrow> bool \<Rightarrow> invocation list \<Rightarrow> bool" where
  "added_not_erased k b [] = b"
| "added_not_erased k b (Add_call e # ms) = added_not_erased k (e = k \<or> b) ms"
| "added_not_erased k b (Get_call e erase # ms) =
     added_not_erased k (b \<and> \<not> (e = k \<and> erase)) ms"
| "added_not_erased k b (ComputeEntry_call hash flags # ms) = added_not_erased k b ms"
| "added_not_erased k b (setup_bytes_call n # ms) = added_not_erased k b ms"

section \<open>Properties\<close>

subsection \<open>Bytes\<close>

lemma length_bytes_of: "length (bytes_of n w) = n"
  by (simp add: bytes_of_def)

lemma bytes_of_nth: "i < n \<Longrightarrow> bytes_of n w ! i = ucast (drop_bit (8 * i) w)"
  by (simp add: bytes_of_def)

text \<open>Enough bytes determine the word: bit \<open>k\<close> is bit \<open>k mod 8\<close> of byte \<open>k div 8\<close>.\<close>

lemma bytes_of_inj:
  fixes v w :: "'a::len word"
  assumes eq: "bytes_of n v = bytes_of n w" and len: "LENGTH('a) \<le> 8 * n"
  shows "v = w"
proof (rule bit_word_eqI)
  fix k assume k: "k < LENGTH('a)"
  define i where "i = k div 8"
  define j where "j = k mod 8"
  have i: "i < n" using k len by (simp add: i_def less_mult_imp_div_less mult.commute)
  have j: "j < 8" by (simp add: j_def)
  have kij: "k = 8 * i + j" by (simp add: i_def j_def)
  from eq have "bytes_of n v ! i = bytes_of n w ! i" by simp
  with i have e: "(ucast (drop_bit (8 * i) v) :: byte) = ucast (drop_bit (8 * i) w)"
    by (simp add: bytes_of_nth)
  have "bit (ucast (drop_bit (8 * i) v) :: byte) j = bit (ucast (drop_bit (8 * i) w) :: byte) j"
    by (simp only: e)
  with j show "bit v k = bit w k"
    by (simp add: bit_ucast_iff bit_drop_bit_eq kij)
qed

lemma length_uint256_begin: "length (uint256_begin x) = 32"
  by (simp add: uint256_begin_def length_bytes_of)

lemma length_object_repr: "length (object_repr order flags) = 4"
  by (cases order) (simp_all add: object_repr_def length_bytes_of)

lemma uint256_begin_inj: "uint256_begin x = uint256_begin y \<Longrightarrow> x = y"
  using bytes_of_inj [of 32 x y] by (simp add: uint256_begin_def)

lemma object_repr_inj: "object_repr order x = object_repr order y \<Longrightarrow> x = y"
  using bytes_of_inj [of 4 x y] by (cases order) (simp_all add: object_repr_def)

lemma object_repr_LittleEndian:
  "object_repr LittleEndian flags =
     [ucast flags, ucast (drop_bit 8 flags), ucast (drop_bit 16 flags), ucast (drop_bit 24 flags)]"
  by (simp add: object_repr_def bytes_of_def upt_rec)

lemma object_repr_BigEndian:
  "object_repr BigEndian flags =
     [ucast (drop_bit 24 flags), ucast (drop_bit 16 flags), ucast (drop_bit 8 flags), ucast flags]"
  by (simp add: object_repr_def bytes_of_def upt_rec)

subsection \<open>What the hashers have absorbed\<close>

lemma written_Write: "written (Write h data len) = written h @ take len data"
  by (simp add: Write_def)

lemma written_ctor:
  "written (m_salted_hasher (CScriptCache_ctor nonce)) = uint256_begin nonce @ uint256_begin nonce"
  by (simp add: CScriptCache_ctor_def CSHA256_init_def written_Write length_uint256_begin)

lemma written_ComputeEntry_hasher:
  "written (ComputeEntry_hasher order c hash flags) =
     written (m_salted_hasher c) @ uint256_begin hash @ object_repr order flags"
  by (simp add: ComputeEntry_hasher_def written_Write length_uint256_begin
      length_object_repr sizeof_flags_def)

text \<open>No method assigns to the member \<^verbatim>\<open>m_salted_hasher\<close> after the constructor.\<close>

lemma hasher_call: "m_salted_hasher (snd (call order sha evict sizing c m)) = m_salted_hasher c"
  by (cases m) (simp_all add: Get_def Add_def setup_bytes_def split_beta)

lemma hasher_run: "m_salted_hasher (run order sha evict sizing c ms) = m_salted_hasher c"
  by (induction ms arbitrary: c) (simp_all add: hasher_call)

lemma run_append:
  "run order sha evict sizing c (ms1 @ ms2) = run order sha evict sizing (run order sha evict sizing c ms1) ms2"
  by (induction ms1 arbitrary: c) simp_all

subsection \<open>The key derivation\<close>

text \<open>
  C1, as amended. On every object reached from a constructed one,
  \<^verbatim>\<open>ComputeEntry(hash, flags)\<close> is the digest of the salt (the nonce, twice) followed by
  the 32 bytes of \<open>hash\<close> and then the four bytes of the object representation of the
  flags, in the host's byte order: least significant byte first on a little-endian
  host, most significant byte first on a big-endian host.
\<close>

theorem ComputeEntry_salted_hash:
  "ComputeEntry order sha (run order sha evict sizing (CScriptCache_ctor nonce) ms) hash flags =
     sha (uint256_begin nonce @ uint256_begin nonce @ uint256_begin hash @
          (case order of
             LittleEndian \<Rightarrow>
               [ucast flags, ucast (drop_bit 8 flags), ucast (drop_bit 16 flags),
                ucast (drop_bit 24 flags)]
           | BigEndian \<Rightarrow>
               [ucast (drop_bit 24 flags), ucast (drop_bit 16 flags), ucast (drop_bit 8 flags),
                ucast flags]))
   \<and> length (uint256_begin hash) = 32"
  by (cases order)
     (simp_all add: ComputeEntry_def Finalize_def written_ComputeEntry_hasher hasher_run
        written_ctor object_repr_LittleEndian object_repr_BigEndian length_uint256_begin)

text \<open>
  The stronger statement, with the flags always least significant byte first, fails
  on a big-endian host. For the nonce 0, the hash 0 and the flags 1 the four bytes
  written for the flags are 0, 0, 0, 1, so what the copied hasher has absorbed is not
  the salt, the hash and the bytes 1, 0, 0, 0; and a digest that tells the two byte
  sequences apart (here: by their last byte) returns a different entry for them.
\<close>

theorem ComputeEntry_little_endian_counterexample:
  "object_repr BigEndian 1 = [0, 0, 0, 1]
   \<and> written (ComputeEntry_hasher BigEndian (CScriptCache_ctor 0) 0 1) \<noteq>
       uint256_begin 0 @ uint256_begin 0 @ uint256_begin 0 @
       [ucast (1 :: unsigned_int), ucast (drop_bit 8 (1 :: unsigned_int)),
        ucast (drop_bit 16 (1 :: unsigned_int)), ucast (drop_bit 24 (1 :: unsigned_int))]
   \<and> ComputeEntry BigEndian (\<lambda>bs. ucast (last bs)) (CScriptCache_ctor 0) 0 1 \<noteq>
       (\<lambda>bs. ucast (last bs))
         (uint256_begin 0 @ uint256_begin 0 @ uint256_begin 0 @
          [ucast (1 :: unsigned_int), ucast (drop_bit 8 (1 :: unsigned_int)),
           ucast (drop_bit 16 (1 :: unsigned_int)), ucast (drop_bit 24 (1 :: unsigned_int))])"
  by (simp add: ComputeEntry_def Finalize_def written_ComputeEntry_hasher written_ctor
      object_repr_BigEndian)

text \<open>
  C2. Within one instance \<^verbatim>\<open>ComputeEntry\<close> is deterministic: whatever calls are made
  between two calls with the same hash and flags, both return the same entry, and that
  entry is a function of the hash, the flags and the instance's nonce alone.
\<close>

theorem ComputeEntry_deterministic:
  "ComputeEntry order sha
       (run order sha evict sizing (run order sha evict sizing (CScriptCache_ctor nonce) ms1) ms2) hash flags =
     ComputeEntry order sha (run order sha evict sizing (CScriptCache_ctor nonce) ms1) hash flags
   \<and> ComputeEntry order sha (run order sha evict sizing (CScriptCache_ctor nonce) ms1) hash flags =
     sha (uint256_begin nonce @ uint256_begin nonce @ uint256_begin hash @ object_repr order flags)"
  by (simp add: ComputeEntry_def Finalize_def written_ComputeEntry_hasher hasher_run written_ctor)

text \<open>
  C3. The constructor writes the one nonce into the salted hasher twice, 32 bytes each
  time, so the hasher has absorbed exactly 64 bytes of nonce; the bytes that
  \<^verbatim>\<open>ComputeEntry\<close> writes for a key come after them.
\<close>

theorem ctor_writes_nonce_twice:
  "m_salted_hasher (CScriptCache_ctor nonce) =
     Write (Write CSHA256_init (uint256_begin nonce) 32) (uint256_begin nonce) 32
   \<and> length (uint256_begin nonce) = 32
   \<and> written (m_salted_hasher (CScriptCache_ctor nonce)) = uint256_begin nonce @ uint256_begin nonce
   \<and> length (written (m_salted_hasher (CScriptCache_ctor nonce))) = 64
   \<and> written (ComputeEntry_hasher order (CScriptCache_ctor nonce) hash flags) =
       written (m_salted_hasher (CScriptCache_ctor nonce)) @ uint256_begin hash @ object_repr order flags"
  by (simp add: written_ctor written_ComputeEntry_hasher length_uint256_begin)
     (simp add: CScriptCache_ctor_def)

text \<open>
  C7. \<^verbatim>\<open>ComputeEntry\<close> changes nothing of the object: after the call the salted hasher
  and the store are what they were, the writes having gone to the local copy of the
  hasher; a history with the call left out ends in the same object.
\<close>

theorem ComputeEntry_frame:
  "snd (call order sha evict sizing c (ComputeEntry_call hash flags)) = c
   \<and> fst (call order sha evict sizing c (ComputeEntry_call hash flags)) =
       Entry (Finalize sha (Write (Write (m_salted_hasher c) (uint256_begin hash) 32)
                (object_repr order flags) sizeof_flags))
   \<and> run order sha evict sizing c (ms1 @ ComputeEntry_call hash flags # ms2) =
       run order sha evict sizing c (ms1 @ ms2)"
  by (simp add: run_append ComputeEntry_def ComputeEntry_hasher_def)

text \<open>
  C10. The bytes written for a key determine the hash and the flags: two different
  pairs give different byte sequences of 32 + 4 bytes, hence different inputs to the
  digest, so their entries can only be equal when the digest function collides on
  these two inputs.
\<close>

theorem ComputeEntry_input_injective:
  assumes "(hash1, flags1) \<noteq> (hash2, flags2)"
  shows "uint256_begin hash1 @ object_repr order flags1 \<noteq> uint256_begin hash2 @ object_repr order flags2
   \<and> written (ComputeEntry_hasher order c hash1 flags1) \<noteq> written (ComputeEntry_hasher order c hash2 flags2)
   \<and> ComputeEntry order sha c hash1 flags1 = sha (written (ComputeEntry_hasher order c hash1 flags1))
   \<and> ComputeEntry order sha c hash2 flags2 = sha (written (ComputeEntry_hasher order c hash2 flags2))"
proof -
  have ne: "uint256_begin hash1 @ object_repr order flags1 \<noteq> uint256_begin hash2 @ object_repr order flags2"
  proof
    assume "uint256_begin hash1 @ object_repr order flags1 = uint256_begin hash2 @ object_repr order flags2"
    then have "uint256_begin hash1 = uint256_begin hash2 \<and> object_repr order flags1 = object_repr order flags2"
      by (simp add: length_uint256_begin)
    then have "hash1 = hash2 \<and> flags1 = flags2"
      by (blast dest: uint256_begin_inj object_repr_inj)
    with assms show False by simp
  qed
  then show ?thesis
    by (simp add: written_ComputeEntry_hasher ComputeEntry_def Finalize_def)
qed

theorem ComputeEntry_input_injective_witness:
  "((5 :: uint256), (1 :: unsigned_int)) \<noteq> (5, 2)
   \<and> written (ComputeEntry_hasher LittleEndian (CScriptCache_ctor 7) 5 1) \<noteq>
     written (ComputeEntry_hasher LittleEndian (CScriptCache_ctor 7) 5 2)"
  using ComputeEntry_input_injective [of 5 1 5 2 LittleEndian "CScriptCache_ctor 7" "\<lambda>bs. 0"]
  by simp

subsection \<open>Membership\<close>

lemma fst_Get: "fst (Get c k erase) = (k \<in> set (table (m_set_scripts c)))"
  by (simp add: Get_def contains_def)

lemma snd_Get_keep: "snd (Get c k False) = c"
  by (simp add: Get_def contains_def)

lemma table_Get_erase:
  "table (m_set_scripts (snd (Get c k True))) = removeAll k (table (m_set_scripts c))"
  by (simp add: Get_def contains_def)

lemma in_table_Add: "k \<in> set (table (m_set_scripts (Add evict c k)))"
  by (simp add: Add_def insert_entry_def split: option.splits)

lemma in_table_insert_entry:
  "k \<in> set (table (insert_entry evict s e)) \<Longrightarrow> k = e \<or> k \<in> set (table s)"
  by (auto simp: insert_entry_def split: if_splits option.splits)

lemma in_table_contains:
  "k \<in> set (table (snd (contains s e erase))) \<Longrightarrow> k \<in> set (table s) \<and> \<not> (e = k \<and> erase)"
  by (auto simp: contains_def split: if_splits)

text \<open>A key in the store after a call was there before it, or the call was its \<^verbatim>\<open>Add\<close>.\<close>

lemma table_call:
  assumes "k \<in> set (table (m_set_scripts (snd (call order sha evict sizing c m))))"
  shows "case m of
           Add_call e \<Rightarrow> e = k \<or> k \<in> set (table (m_set_scripts c))
         | Get_call e erase \<Rightarrow> k \<in> set (table (m_set_scripts c)) \<and> \<not> (e = k \<and> erase)
         | ComputeEntry_call hash flags \<Rightarrow> k \<in> set (table (m_set_scripts c))
         | setup_bytes_call n \<Rightarrow> False"
proof (cases m)
  case (Add_call e)
  with assms in_table_insert_entry [of k evict "m_set_scripts c" e] show ?thesis
    by (auto simp: Add_def)
next
  case (Get_call e erase)
  with assms in_table_contains [of k "m_set_scripts c" e erase] show ?thesis
    by (simp add: Get_def split_beta)
next
  case (ComputeEntry_call hash flags)
  with assms show ?thesis by simp
next
  case (setup_bytes_call n)
  with assms show ?thesis
    by (simp add: setup_bytes_def cache_setup_bytes_def split_beta)
qed

lemma table_run:
  "k \<in> set (table (m_set_scripts (run order sha evict sizing c ms))) \<Longrightarrow>
   (k \<in> set (table (m_set_scripts c)) \<longrightarrow> b) \<Longrightarrow> added_not_erased k b ms"
proof (induction ms arbitrary: c b)
  case Nil
  then show ?case by simp
next
  case (Cons m ms)
  let ?c' = "snd (call order sha evict sizing c m)"
  from Cons.prems(1) have r: "k \<in> set (table (m_set_scripts (run order sha evict sizing ?c' ms)))"
    by simp
  show ?case
  proof (cases m)
    case (Add_call e)
    have "k \<in> set (table (m_set_scripts ?c')) \<longrightarrow> (e = k \<or> b)"
      using table_call [of k order sha evict sizing c m] Cons.prems(2) Add_call by auto
    from Cons.IH [OF r this] Add_call show ?thesis by simp
  next
    case (Get_call e erase)
    have "k \<in> set (table (m_set_scripts ?c')) \<longrightarrow> (b \<and> \<not> (e = k \<and> erase))"
      using table_call [of k order sha evict sizing c m] Cons.prems(2) Get_call by auto
    from Cons.IH [OF r this] Get_call show ?thesis by simp
  next
    case (ComputeEntry_call hash flags)
    have "k \<in> set (table (m_set_scripts ?c')) \<longrightarrow> b"
      using table_call [of k order sha evict sizing c m] Cons.prems(2) ComputeEntry_call by auto
    from Cons.IH [OF r this] ComputeEntry_call show ?thesis by simp
  next
    case (setup_bytes_call n)
    have "k \<in> set (table (m_set_scripts ?c')) \<longrightarrow> b"
      using table_call [of k order sha evict sizing c m] setup_bytes_call by auto
    from Cons.IH [OF r this] setup_bytes_call show ?thesis by simp
  qed
qed

lemma added_not_erased_Add:
  "added_not_erased k b ms \<Longrightarrow> b \<or> Add_call k \<in> set ms"
  by (induction k b ms rule: added_not_erased.induct) auto

text \<open>
  C4. \<^verbatim>\<open>Get\<close> gives no false positive: on an object reached from a constructed one by
  any history of calls, \<^verbatim>\<open>Get(k, erase)\<close> returns true only if the history passed \<open>k\<close>
  to \<^verbatim>\<open>Add\<close> with no erasing \<^verbatim>\<open>Get\<close> of \<open>k\<close> since (eviction only removes). So for a
  key never added, \<^verbatim>\<open>Get\<close> returns false.
\<close>

theorem Get_no_false_positive:
  assumes "fst (Get (run order sha evict sizing (CScriptCache_ctor nonce) ms) k erase)"
  shows "Add_call k \<in> set ms \<and> added_not_erased k False ms"
proof -
  from assms
  have "k \<in> set (table (m_set_scripts (run order sha evict sizing (CScriptCache_ctor nonce) ms)))"
    by (simp add: fst_Get)
  then have "added_not_erased k False ms"
    by (rule table_run) (simp add: CScriptCache_ctor_def cache_init_def)
  with added_not_erased_Add [of k False ms] show ?thesis by simp
qed

theorem Get_no_false_positive_witness:
  "fst (Get (run LittleEndian (\<lambda>bs. 0) (\<lambda>s e. None) (\<lambda>n. (2, 2)) (CScriptCache_ctor 7)
          [setup_bytes_call 64, Add_call 5, Get_call 9 True]) 5 False)
   \<and> Add_call 5 \<in> set [setup_bytes_call 64, Add_call 5, Get_call 9 True]
   \<and> added_not_erased 5 False [setup_bytes_call 64, Add_call 5, Get_call 9 True]"
  using Get_no_false_positive [of LittleEndian "\<lambda>bs. 0" "\<lambda>s e. None" "\<lambda>n. (2, 2)" 7
      "[setup_bytes_call 64, Add_call 5, Get_call 9 True]" 5 False]
  by (simp add: fst_Get Get_def contains_def Add_def insert_entry_def setup_bytes_def
      cache_setup_bytes_def CScriptCache_ctor_def cache_init_def)

text \<open>
  C5. Right after \<^verbatim>\<open>Add(k)\<close>, \<^verbatim>\<open>Get(k, false)\<close> returns true and leaves the object as
  it is, so a second \<^verbatim>\<open>Get(k, false)\<close> returns true again.
\<close>

theorem Add_then_Get:
  "fst (Get (Add evict c k) k False)
   \<and> snd (Get (Add evict c k) k False) = Add evict c k
   \<and> fst (Get (snd (Get (Add evict c k) k False)) k False)"
  by (simp add: fst_Get snd_Get_keep in_table_Add)

text \<open>
  C6. Right after \<^verbatim>\<open>Add(k)\<close>, \<^verbatim>\<open>Get(k, true)\<close> returns true and removes the entry in
  the same call, so a \<^verbatim>\<open>Get(k, false)\<close> that follows returns false.
\<close>

theorem Get_erase_on_hit:
  "fst (Get (Add evict c k) k True)
   \<and> k \<notin> set (table (m_set_scripts (snd (Get (Add evict c k) k True))))
   \<and> \<not> fst (Get (snd (Get (Add evict c k) k True)) k False)"
  by (simp add: fst_Get table_Get_erase in_table_Add)

end
